theory Spec2Isabelle
  imports Main "HOL-Library.AList"
begin

section \<open>Paths\<close>

text \<open>
  The crawler manipulates \<^verbatim>\<open>pathlib.Path\<close> values on a POSIX system. A path is
  its list of components together with a flag telling whether it starts at the root.
  \<^verbatim>\<open>Path(s)\<close> splits the string at every slash and drops empty components and the
  component \<^verbatim>\<open>.\<close> (a doubled leading slash is read as a single one).
\<close>

datatype path = Path (anchored: bool) (parts: "string list")

fun split_slash :: "string \<Rightarrow> string list" where
  "split_slash [] = [[]]"
| "split_slash (c # cs) =
     (if c = CHR ''/'' then [] # split_slash cs
      else (case split_slash cs of [] \<Rightarrow> [[c]] | x # xs \<Rightarrow> (c # x) # xs))"

definition parse :: "string \<Rightarrow> path" where
  "parse s =
     Path (case s of [] \<Rightarrow> False | c # _ \<Rightarrow> c = CHR ''/'')
          (filter (\<lambda>c. c \<noteq> [] \<and> c \<noteq> ''.'') (split_slash s))"

text \<open>\<^verbatim>\<open>p / q\<close>: an anchored right operand replaces the left one.\<close>

definition join :: "path \<Rightarrow> path \<Rightarrow> path" where
  "join p q = (if anchored q then q else Path (anchored p) (parts p @ parts q))"

definition parent :: "path \<Rightarrow> path" where
  "parent p = Path (anchored p) (butlast (parts p))"

text \<open>\<^verbatim>\<open>Path.name\<close>: the final component, the empty string when there is none.\<close>

definition name :: "path \<Rightarrow> string" where
  "name p = (if parts p = [] then [] else last (parts p))"

text \<open>\<^verbatim>\<open>str.rfind('.')\<close>, with \<open>None\<close> for Python's \<^verbatim>\<open>-1\<close>.\<close>

fun rfind_dot :: "string \<Rightarrow> nat option" where
  "rfind_dot [] = None"
| "rfind_dot (c # cs) =
     (case rfind_dot cs of
        Some i \<Rightarrow> Some (Suc i)
      | None \<Rightarrow> if c = CHR ''.'' then Some 0 else None)"

text \<open>
  \<^verbatim>\<open>Path.suffix\<close>: \<^verbatim>\<open>i = name.rfind('.')\<close>, and \<^verbatim>\<open>name[i:]\<close> when
  \<^verbatim>\<open>0 < i < len(name) - 1\<close>, the empty string otherwise.
\<close>

definition suffix_str :: "string \<Rightarrow> string" where
  "suffix_str n =
     (case rfind_dot n of
        None \<Rightarrow> []
      | Some i \<Rightarrow> if 0 < i \<and> Suc i < length n then drop i n else [])"

definition suffix :: "path \<Rightarrow> string" where
  "suffix p = suffix_str (name p)"

text \<open>
  \<^verbatim>\<open>Path.with_suffix(s)\<close> replaces the suffix of the final component; it is only
  called on paths with a non-empty name.
\<close>

definition with_suffix :: "path \<Rightarrow> string \<Rightarrow> path" where
  "with_suffix p s =
     Path (anchored p)
          (butlast (parts p) @ [take (length (name p) - length (suffix p)) (name p) @ s])"

text \<open>\<^verbatim>\<open>str(path)\<close>, used by the f-string that builds the remote directory.\<close>

fun intercalate_slash :: "string list \<Rightarrow> string" where
  "intercalate_slash [] = []"
| "intercalate_slash [x] = x"
| "intercalate_slash (x # y # ys) = x @ ''/'' @ intercalate_slash (y # ys)"

definition str_path :: "path \<Rightarrow> string" where
  "str_path p =
     (if parts p = [] then (if anchored p then ''/'' else ''.'')
      else (if anchored p then ''/'' else []) @ intercalate_slash (parts p))"

text \<open>
  The pattern \<^verbatim>\<open>*.ext\<close> of \<^verbatim>\<open>Path.glob\<close>, for an extension without
  wildcard characters: the name ends with a dot followed by the extension. Unlike
  \<^verbatim>\<open>suffix\<close>, the star also matches the empty prefix.
\<close>

definition glob_match :: "string \<Rightarrow> string \<Rightarrow> bool" where
  "glob_match ext n =
     (let pat = CHR ''.'' # ext
      in length pat \<le> length n \<and> drop (length n - length pat) n = pat)"

text \<open>\<^verbatim>\<open>str.upper()\<close> on ASCII text.\<close>

definition upper_char :: "char \<Rightarrow> char" where
  "upper_char c =
     (let k = (of_char c :: nat) in if 97 \<le> k \<and> k \<le> 122 then char_of (k - 32) else c)"

definition upper :: "string \<Rightarrow> string" where
  "upper s = map upper_char s"

section \<open>The world: local files, the remote server, the log\<close>

text \<open>
  Exceptions are values. \<^verbatim>\<open>FileExistsError\<close> never leaves the function that
  provokes it and is a branch of the model instead.
\<close>

datatype exn =
    KeyError
  | IndexError
  | FileNotFoundError
  | EOFError
  | FtpErrorTemp
  | BadGzipFile
  | KeyboardInterrupt
  | OtherError string

text \<open>Everything observable that a run does, in order.\<close>

datatype event =
    Connect
  | Close
  | FtpList string
  | FtpGet path
  | Unlink path
  | LogInfo_Start path
  | LogInfo_Downloaded path
  | LogError_Already path
  | LogWarning_Sleep exn
  | Sleep nat
  | LogWarning_Retry
  | HandlerCall path
  | LogError_File path exn

text \<open>
  The local file system is a finite table from the paths of regular files to their
  contents; directories are implicit. \<open>tick\<close> counts the operations sent to the remote
  server, \<open>trace\<close> is the sequence of events so far.
\<close>

record world =
  files :: "(path \<times> string) list"
  tick :: nat
  trace :: "event list"

text \<open>
  The remote server is outside the program. Its answer to the \<open>k\<close>-th operation is a
  parameter: connecting may raise, listing returns the entries or raises, and a
  retrieval delivers some bytes and then possibly raises.
\<close>

record server =
  srv_connect :: "nat \<Rightarrow> exn option"
  srv_list :: "nat \<Rightarrow> string \<Rightarrow> exn + string list"
  srv_get :: "nat \<Rightarrow> path \<Rightarrow> string \<times> exn option"

definition log_event :: "event \<Rightarrow> world \<Rightarrow> world" where
  "log_event e w = w\<lparr>trace := trace w @ [e]\<rparr>"

definition log_events :: "event list \<Rightarrow> world \<Rightarrow> world" where
  "log_events es w = w\<lparr>trace := trace w @ es\<rparr>"

definition is_file :: "world \<Rightarrow> path \<Rightarrow> bool" where
  "is_file w p = (map_of (files w) p \<noteq> None)"

definition write_file :: "path \<Rightarrow> string \<Rightarrow> world \<Rightarrow> world" where
  "write_file p data w = w\<lparr>files := AList.update p data (files w)\<rparr>"

definition unlink :: "path \<Rightarrow> world \<Rightarrow> world" where
  "unlink p w = w\<lparr>files := AList.delete p (files w), trace := trace w @ [Unlink p]\<rparr>"

text \<open>The entries of a directory that are regular files.\<close>

definition in_dir :: "path \<Rightarrow> path \<Rightarrow> bool" where
  "in_dir d p = (parts p \<noteq> [] \<and> parent p = d)"

definition scandir :: "world \<Rightarrow> path \<Rightarrow> path list" where
  "scandir w d = filter (in_dir d) (map fst (files w))"

text \<open>
  The class \<^verbatim>\<open>FTP\<close>: entering the \<^verbatim>\<open>with\<close> block connects, leaving it closes
  the connection; an error of the close is logged there and goes no further.
\<close>

definition ftp_connect :: "server \<Rightarrow> world \<Rightarrow> exn option \<times> world" where
  "ftp_connect S w =
     (srv_connect S (tick w), w\<lparr>tick := Suc (tick w), trace := trace w @ [Connect]\<rparr>)"

definition ftp_close :: "world \<Rightarrow> world" where
  "ftp_close w = log_event Close w"

definition ftp_list :: "server \<Rightarrow> string \<Rightarrow> world \<Rightarrow> (exn + string list) \<times> world" where
  "ftp_list S d w =
     (srv_list S (tick w) d, w\<lparr>tick := Suc (tick w), trace := trace w @ [FtpList d]\<rparr>)"

text \<open>
  \<^verbatim>\<open>open(pth, "xb")\<close> has created the file before \<^verbatim>\<open>ftp_.get\<close> starts writing
  into it, so whatever arrives before an exception stays in the file.
\<close>

definition ftp_get :: "server \<Rightarrow> path \<Rightarrow> path \<Rightarrow> world \<Rightarrow> exn option \<times> world" where
  "ftp_get S filename pth w =
     (case srv_get S (tick w) filename of
        (data, err) \<Rightarrow>
          (err, w\<lparr>files := AList.update pth data (files w),
                  tick := Suc (tick w),
                  trace := trace w @ [FtpGet filename]\<rparr>))"

section \<open>PubchemLoader\<close>

record loader =
  ftp :: string
  target :: path
  fmt :: string
  target_dir :: path

definition dir_mapping :: "(string \<times> string) list" where
  "dir_mapping = [(''compounds'', ''Compound'')]"

definition sup_extensions :: "string list" where
  "sup_extensions = [''.md5'', ''.gz'']"

definition PubchemLoader_init :: "string \<Rightarrow> string \<Rightarrow> string \<Rightarrow> exn + loader" where
  "PubchemLoader_init data tdir f =
     (case map_of dir_mapping data of
        None \<Rightarrow> Inl KeyError
      | Some d \<Rightarrow>
          Inr \<lparr>ftp = ''ftp.ncbi.nlm.nih.gov'',
               target = join (parse ''pubchem'') (parse d),
               fmt = upper f,
               target_dir = parse tdir\<rparr>)"

definition source_dir :: "loader \<Rightarrow> string" where
  "source_dir L = str_path (target L) @ ''/CURRENT-Full/'' @ fmt L"

text \<open>
  \<^verbatim>\<open>__checksum\<close> looks whether the sidecar exists, drops the answer and reports
  success.
\<close>

definition checksum :: "world \<Rightarrow> path \<Rightarrow> bool" where
  "checksum w target_file = (let _ = is_file w (with_suffix target_file ''.gz.md5'') in True)"

text \<open>
  \<^verbatim>\<open>__download_file\<close>. Directories are implicit in the file table, so creating
  the parent directory changes nothing. The exclusive open fails exactly when the
  destination exists; the branches after the first two are the handler of that failure.
  The first branch of the handler removes the sidecar and calls the function again,
  the second would call it again on an unchanged world if the checksum ever failed.
\<close>

function download_file :: "loader \<Rightarrow> server \<Rightarrow> path \<Rightarrow> int \<Rightarrow> world \<Rightarrow> exn option \<times> world" where
  "download_file L S filename tries w =
     (let pth = join (target_dir L) filename in
      if suffix pth \<notin> set sup_extensions then (None, w)
      else if \<not> is_file w pth then
        (case ftp_get S filename pth w of
           (Some e, w1) \<Rightarrow> (Some e, w1)
         | (None, w1) \<Rightarrow> (None, log_event (LogInfo_Downloaded pth) w1))
      else if suffix pth = ''.md5'' then
        download_file L S filename (tries + 1) (unlink pth w)
      else if \<not> checksum w pth then
        download_file L S filename (tries + 1) w
      else (None, log_event (LogError_Already filename) w))"
  by pat_completeness auto
termination
  by (relation "measure (\<lambda>(L, S, filename, tries, w).
         if is_file w (join (target_dir L) filename) then 1 else 0)")
     (auto simp: is_file_def unlink_def checksum_def AList.delete_conv')

declare download_file.simps [simp del]

text \<open>\<^verbatim>\<open>get_names\<close>: the set of final components, as a list without duplicates.\<close>

definition get_names :: "path list \<Rightarrow> string list" where
  "get_names entries = remdups (map name entries)"

definition local_names :: "loader \<Rightarrow> string \<Rightarrow> string \<Rightarrow> world \<Rightarrow> string list" where
  "local_names L sdir ext w =
     get_names (filter (\<lambda>p. glob_match ext (name p))
                  (scandir w (join (target_dir L) (parse sdir))))"

definition remote_names :: "string list \<Rightarrow> string \<Rightarrow> string list" where
  "remote_names source_file_list ext =
     filter (\<lambda>x. suffix (parse x) = CHR ''.'' # ext) (get_names (map parse source_file_list))"

definition diff_names :: "loader \<Rightarrow> string \<Rightarrow> string list \<Rightarrow> string \<Rightarrow> world \<Rightarrow> string list" where
  "diff_names L sdir source_file_list ext w =
     filter (\<lambda>n. n \<notin> set (local_names L sdir ext w)) (remote_names source_file_list ext)"

text \<open>
  \<^verbatim>\<open>__diff\<close>. Indexing the listing at 0 raises \<^verbatim>\<open>IndexError\<close> on an empty
  listing. A Python set has no iteration order; the model yields the names in the order
  of the listing.
\<close>

definition diff :: "loader \<Rightarrow> string \<Rightarrow> string list \<Rightarrow> string \<Rightarrow> world \<Rightarrow> exn + path list" where
  "diff L sdir source_file_list ext w =
     (let names = diff_names L sdir source_file_list ext w in
      if names \<noteq> [] then
        (case source_file_list of
           [] \<Rightarrow> Inl IndexError
         | x # _ \<Rightarrow> Inr (map (\<lambda>n. join (parent (parse x)) (parse n)) names))
      else Inr [])"

text \<open>
  The inner loop of \<^verbatim>\<open>full_download\<close>. \<open>retry\<close> is the recursive call of the
  handler, which catches every exception of the download step.
\<close>

fun download_all ::
  "loader \<Rightarrow> server \<Rightarrow> (world \<Rightarrow> (exn option \<times> world) option) \<Rightarrow> path list \<Rightarrow> world
     \<Rightarrow> (exn option \<times> world) option" where
  "download_all L S retry [] w = Some (None, w)"
| "download_all L S retry (remote_file # rest) w =
     (case download_file L S remote_file 0 (log_event (LogInfo_Start remote_file) w) of
        (None, w1) \<Rightarrow> download_all L S retry rest w1
      | (Some err, w1) \<Rightarrow>
          (case retry (log_events [LogWarning_Sleep err, Sleep 5, LogWarning_Retry] w1) of
             None \<Rightarrow> None
           | Some (Some e, w2) \<Rightarrow> Some (Some e, w2)
           | Some (None, w2) \<Rightarrow> download_all L S retry rest w2))"

text \<open>One round of the outer loop: list the remote directory, diff, download.\<close>

definition sync_class ::
  "loader \<Rightarrow> server \<Rightarrow> (world \<Rightarrow> (exn option \<times> world) option) \<Rightarrow> string \<Rightarrow> world
     \<Rightarrow> (exn option \<times> world) option" where
  "sync_class L S retry sfx w =
     (case ftp_list S (source_dir L) w of
        (Inl e, w1) \<Rightarrow> Some (Some e, w1)
      | (Inr lst, w1) \<Rightarrow>
          (case diff L (source_dir L) lst (tl sfx) w1 of
             Inl e \<Rightarrow> Some (Some e, w1)
           | Inr targets \<Rightarrow> download_all L S retry targets w1))"

fun sync_classes ::
  "loader \<Rightarrow> server \<Rightarrow> (world \<Rightarrow> (exn option \<times> world) option) \<Rightarrow> string list \<Rightarrow> world
     \<Rightarrow> (exn option \<times> world) option" where
  "sync_classes L S retry [] w = Some (None, w)"
| "sync_classes L S retry (sfx # exts) w =
     (case sync_class L S retry sfx w of
        None \<Rightarrow> None
      | Some (Some e, w1) \<Rightarrow> Some (Some e, w1)
      | Some (None, w1) \<Rightarrow> sync_classes L S retry exts w1)"

text \<open>
  \<^verbatim>\<open>full_download\<close> calls itself from its exception handler and need not
  return. The first argument bounds the nesting depth of these calls; \<open>None\<close> says
  that the bound was reached. The connection is closed on every way out of the
  \<^verbatim>\<open>with\<close> block.
\<close>

fun full_download :: "nat \<Rightarrow> loader \<Rightarrow> server \<Rightarrow> world \<Rightarrow> (exn option \<times> world) option" where
  "full_download 0 L S w = None"
| "full_download (Suc k) L S w =
     (case ftp_connect S w of
        (Some e, w0) \<Rightarrow> Some (Some e, w0)
      | (None, w0) \<Rightarrow>
          (case sync_classes L S (full_download k L S) sup_extensions w0 of
             None \<Rightarrow> None
           | Some (r, w1) \<Rightarrow> Some (r, ftp_close w1)))"

section \<open>Extractor\<close>

record extractor =
  chembl_dir :: path

definition Extractor_init :: "string \<Rightarrow> extractor" where
  "Extractor_init d = \<lparr>chembl_dir = parse d\<rparr>"

text \<open>
  \<^verbatim>\<open>gzip.open(file).read()\<close> belongs to the standard library: on the bytes of an
  archive it returns the decompressed bytes or raises (\<^verbatim>\<open>EOFError\<close> on a truncated
  stream, \<^verbatim>\<open>BadGzipFile\<close> on a stream that is not gzip data). It is the
  parameter \<open>G\<close>. The handler is the parameter \<open>H\<close>: it reads the world and returns or
  raises; what it does to its own sink is not part of the model.
\<close>

type_synonym gunzip = "string \<Rightarrow> exn + string"
type_synonym handler = "path \<Rightarrow> world \<Rightarrow> exn option"

text \<open>
  \<^verbatim>\<open>__gunzip_content\<close>. The \<^verbatim>\<open>with\<close> statement opens the target for writing,
  which creates or empties it, before the archive is opened and read.
\<close>

definition gunzip_content :: "gunzip \<Rightarrow> path \<Rightarrow> world \<Rightarrow> (exn + path) \<times> world" where
  "gunzip_content G file w =
     (let target_file = with_suffix file [];
          w1 = write_file target_file [] w
      in case map_of (files w1) file of
           None \<Rightarrow> (Inl FileNotFoundError, w1)
         | Some data \<Rightarrow>
             (case G data of
                Inl e \<Rightarrow> (Inl e, w1)
              | Inr out \<Rightarrow> (Inr target_file, write_file target_file out w1)))"

text \<open>
  The body of \<^verbatim>\<open>extract\<close> for the files of one directory. Only \<^verbatim>\<open>EOFError\<close> is
  caught, whether it comes from decompression or from the handler.
\<close>

fun extract_files :: "gunzip \<Rightarrow> handler \<Rightarrow> path \<Rightarrow> string list \<Rightarrow> world \<Rightarrow> exn option \<times> world" where
  "extract_files G H root [] w = (None, w)"
| "extract_files G H root (f # fs) w =
     (let file = join root (parse f) in
      if suffix file = ''.gz'' then
        (case gunzip_content G file w of
           (Inl e, w1) \<Rightarrow>
             if e = EOFError
             then extract_files G H root fs (log_event (LogError_File file e) w1)
             else (Some e, w1)
         | (Inr extracted, w1) \<Rightarrow>
             (let w2 = log_event (HandlerCall extracted) w1 in
              case H extracted w2 of
                Some e \<Rightarrow>
                  if e = EOFError
                  then extract_files G H root fs (log_event (LogError_File file e) w2)
                  else (Some e, w2)
              | None \<Rightarrow> extract_files G H root fs (unlink extracted w2)))
      else extract_files G H root fs w)"

fun extract_walk ::
  "gunzip \<Rightarrow> handler \<Rightarrow> (path \<times> string list \<times> string list) list \<Rightarrow> world
     \<Rightarrow> exn option \<times> world" where
  "extract_walk G H [] w = (None, w)"
| "extract_walk G H ((root, dirs, fs) # rest) w =
     (case extract_files G H root fs w of
        (Some e, w1) \<Rightarrow> (Some e, w1)
      | (None, w1) \<Rightarrow> extract_walk G H rest w1)"

text \<open>
  \<^verbatim>\<open>os.walk\<close>, top down: a directory, the names of its subdirectories and of its
  files, then the same for each subdirectory. A directory is listed when the walk
  reaches it; \<^verbatim>\<open>extract\<close> creates and removes files only in the directory whose
  listing it is iterating over, so the walk is computed from the files at the start.
\<close>

definition under :: "path \<Rightarrow> path \<Rightarrow> bool" where
  "under d p =
     (anchored p = anchored d \<and> Suc (length (parts d)) < length (parts p)
      \<and> take (length (parts d)) (parts p) = parts d)"

definition walk_files :: "path list \<Rightarrow> path \<Rightarrow> string list" where
  "walk_files ks d = remdups (map name (filter (in_dir d) ks))"

definition walk_dirs :: "path list \<Rightarrow> path \<Rightarrow> string list" where
  "walk_dirs ks d = remdups (map (\<lambda>p. parts p ! length (parts d)) (filter (under d) ks))"

definition depth :: "path list \<Rightarrow> nat" where
  "depth ks = foldr (\<lambda>p m. max (length (parts p)) m) ks 0"

function os_walk :: "path list \<Rightarrow> path \<Rightarrow> (path \<times> string list \<times> string list) list" where
  "os_walk ks d =
     (d, walk_dirs ks d, walk_files ks d)
       # concat (map (\<lambda>s. os_walk ks (Path (anchored d) (parts d @ [s])))
                  (walk_dirs ks d))"
  by pat_completeness auto
termination
proof (relation "measure (\<lambda>(ks, d). depth ks - length (parts d))")
  show "wf (measure (\<lambda>(ks, d). depth ks - length (parts d)))"
    by simp
next
  fix ks :: "path list" and d :: path and s :: string
  assume "s \<in> set (walk_dirs ks d)"
  then obtain p where p: "p \<in> set ks" "under d p"
    by (auto simp: walk_dirs_def)
  have "length (parts q) \<le> depth ks" if "q \<in> set ks" for q
    using that by (induction ks) (auto simp: depth_def)
  with p(1) have "length (parts p) \<le> depth ks" by blast
  moreover from p(2) have "Suc (length (parts d)) < length (parts p)"
    by (simp add: under_def)
  ultimately show "((ks, Path (anchored d) (parts d @ [s])), (ks, d))
      \<in> measure (\<lambda>(ks, d). depth ks - length (parts d))"
    by simp
qed

declare os_walk.simps [simp del]

definition Extractor_extract :: "extractor \<Rightarrow> gunzip \<Rightarrow> handler \<Rightarrow> world \<Rightarrow> exn option \<times> world" where
  "Extractor_extract X G H w = extract_walk G H (os_walk (map fst (files w)) (chembl_dir X)) w"

section \<open>Scenarios\<close>

text \<open>
  The loader that \<^verbatim>\<open>download\<close> builds for the default mirror directory, a remote
  directory with two archives and their checksum files, and a mirror that already holds
  the first pair.
\<close>

definition example_loader :: loader where
  "example_loader =
     \<lparr>ftp = ''ftp.ncbi.nlm.nih.gov'',
      target = Path False [''pubchem'', ''Compound''],
      fmt = ''SDF'',
      target_dir = Path False [''pubchem_dir'']\<rparr>"

definition example_listing :: "string list" where
  "example_listing =
     [''pubchem/Compound/CURRENT-Full/SDF/a.gz'',
      ''pubchem/Compound/CURRENT-Full/SDF/a.md5'',
      ''pubchem/Compound/CURRENT-Full/SDF/b.gz'',
      ''pubchem/Compound/CURRENT-Full/SDF/b.md5'']"

definition mirror_dir :: path where
  "mirror_dir = Path False [''pubchem_dir'', ''pubchem'', ''Compound'', ''CURRENT-Full'', ''SDF'']"

definition remote_dir :: path where
  "remote_dir = Path False [''pubchem'', ''Compound'', ''CURRENT-Full'', ''SDF'']"

definition partial_mirror :: world where
  "partial_mirror =
     \<lparr>files = [(join mirror_dir (parse ''a.gz''), ''local a.gz''),
               (join mirror_dir (parse ''a.md5''), ''local a.md5'')],
      tick = 0,
      trace = []\<rparr>"

definition empty_mirror :: world where
  "empty_mirror = \<lparr>files = [], tick = 0, trace = []\<rparr>"

text \<open>A server that never fails and serves \<^verbatim>\<open>remote <name>\<close> for every file.\<close>

definition reliable_server :: server where
  "reliable_server =
     \<lparr>srv_connect = (\<lambda>t. None),
      srv_list = (\<lambda>t d. Inr example_listing),
      srv_get = (\<lambda>t f. (''remote '' @ name f, None))\<rparr>"

text \<open>
  A stand-in for the decompressor, two handlers, and extraction roots that hold one
  well-formed archive next to a truncated one or next to a file that is not gzip data.
\<close>

definition example_gunzip :: gunzip where
  "example_gunzip data =
     (if data = ''well-formed archive'' then Inr ''records''
      else if data = ''truncated archive'' then Inl EOFError
      else Inl BadGzipFile)"

definition accepting_handler :: handler where
  "accepting_handler p w = None"

definition failing_handler :: handler where
  "failing_handler p w = Some (OtherError ''ingestion failed'')"

definition example_extractor :: extractor where
  "example_extractor = Extractor_init ''./pubchem_dir''"

definition truncated_tree :: world where
  "truncated_tree =
     \<lparr>files = [(parse ''pubchem_dir/a.sdf.gz'', ''well-formed archive''),
               (parse ''pubchem_dir/b.sdf.gz'', ''truncated archive'')],
      tick = 0, trace = []\<rparr>"

definition invalid_tree :: world where
  "invalid_tree =
     \<lparr>files = [(parse ''pubchem_dir/a.sdf.gz'', ''well-formed archive''),
               (parse ''pubchem_dir/b.sdf.gz'', ''not an archive'')],
      tick = 0, trace = []\<rparr>"

text \<open>
  A server whose sixth operation, the retrieval of \<^verbatim>\<open>a.gz\<close> in a pass over an
  empty mirror, delivers four bytes and then raises; a server whose listing always
  raises; and a world in which that sixth operation is the next one.
\<close>

definition flaky_server :: server where
  "flaky_server =
     \<lparr>srv_connect = (\<lambda>t. None),
      srv_list = (\<lambda>t d. Inr example_listing),
      srv_get = (\<lambda>t f. if t = 5 then (take 4 (''remote '' @ name f), Some EOFError)
                         else (''remote '' @ name f, None))\<rparr>"




section \<open>Properties of paths\<close>

lemma example_loader_init:
  "PubchemLoader_init ''compounds'' ''./pubchem_dir'' ''sdf'' = Inr example_loader"
  by code_simp

lemma example_source_dir: "source_dir example_loader = ''pubchem/Compound/CURRENT-Full/SDF''"
  by code_simp

lemma rfind_dot_lt: "rfind_dot n = Some i \<Longrightarrow> i < length n"
  by (induction n arbitrary: i) (auto split: option.splits if_splits)

lemma suffix_str_glob: "suffix_str n = CHR ''.'' # ext \<Longrightarrow> glob_match ext n"
proof -
  assume a: "suffix_str n = CHR ''.'' # ext"
  then obtain i where i: "rfind_dot n = Some i" "drop i n = CHR ''.'' # ext"
    by (auto simp: suffix_str_def split: option.splits if_splits)
  from rfind_dot_lt [OF i(1)] have lt: "i < length n" .
  have "length (drop i n) = length n - i" by simp
  with i(2) have len: "length n - i = Suc (length ext)" by simp
  with lt have "length n - Suc (length ext) = i" by arith
  with i(2) len show ?thesis by (simp add: glob_match_def)
qed

section \<open>The per-class diff\<close>

lemma set_remote_names:
  "set (remote_names lst ext) =
     {n. \<exists>x \<in> set lst. n = name (parse x) \<and> suffix (parse n) = CHR ''.'' # ext}"
  by (auto simp: remote_names_def get_names_def)

lemma set_local_names:
  "set (local_names L sdir ext w) =
     {n. \<exists>p \<in> fst ` set (files w).
           in_dir (join (target_dir L) (parse sdir)) p \<and> glob_match ext (name p) \<and> n = name p}"
  by (auto simp: local_names_def get_names_def scandir_def)

text \<open>
  C1. The names that \<^verbatim>\<open>__diff\<close> computes for one extension class are exactly the
  base names of the remote listing with that suffix (the set R) without the base names
  of the local files of the mirror directory that match the glob pattern of the class
  (the set L). In any world whose local inventory is L together with the missing names,
  the diff is empty.
\<close>

theorem diff_names_set_difference:
  "set (diff_names L sdir lst ext w) =
     {n. \<exists>x \<in> set lst. n = name (parse x) \<and> suffix (parse n) = CHR ''.'' # ext}
     - {n. \<exists>p \<in> fst ` set (files w).
             in_dir (join (target_dir L) (parse sdir)) p \<and> glob_match ext (name p) \<and> n = name p}
   \<and> (\<forall>w'. set (local_names L sdir ext w')
             = set (local_names L sdir ext w) \<union> set (diff_names L sdir lst ext w)
          \<longrightarrow> diff_names L sdir lst ext w' = [])"
proof (intro conjI allI impI)
  show "set (diff_names L sdir lst ext w) =
     {n. \<exists>x \<in> set lst. n = name (parse x) \<and> suffix (parse n) = CHR ''.'' # ext}
     - {n. \<exists>p \<in> fst ` set (files w).
             in_dir (join (target_dir L) (parse sdir)) p \<and> glob_match ext (name p) \<and> n = name p}"
    unfolding set_remote_names [symmetric] set_local_names [symmetric]
    by (auto simp: diff_names_def)
next
  fix w'
  assume eq: "set (local_names L sdir ext w')
             = set (local_names L sdir ext w) \<union> set (diff_names L sdir lst ext w)"
  have "\<And>n. n \<in> set (remote_names lst ext) \<Longrightarrow> n \<in> set (local_names L sdir ext w')"
    unfolding eq by (auto simp: diff_names_def)
  then show "diff_names L sdir lst ext w' = []"
    by (auto simp: diff_names_def filter_empty_conv)
qed

theorem diff_names_set_difference_witness:
  "set (local_names example_loader (source_dir example_loader) ''gz''
          (write_file (join mirror_dir (parse ''b.gz'')) ''remote b.gz'' partial_mirror))
     = set (local_names example_loader (source_dir example_loader) ''gz'' partial_mirror)
       \<union> set (diff_names example_loader (source_dir example_loader) example_listing ''gz''
                partial_mirror)
   \<and> diff_names example_loader (source_dir example_loader) example_listing ''gz'' partial_mirror
       = [''b.gz'']
   \<and> diff_names example_loader (source_dir example_loader) example_listing ''gz''
       (write_file (join mirror_dir (parse ''b.gz'')) ''remote b.gz'' partial_mirror) = []"
proof -
  have h: "set (local_names example_loader (source_dir example_loader) ''gz''
          (write_file (join mirror_dir (parse ''b.gz'')) ''remote b.gz'' partial_mirror))
     = set (local_names example_loader (source_dir example_loader) ''gz'' partial_mirror)
       \<union> set (diff_names example_loader (source_dir example_loader) example_listing ''gz''
                partial_mirror)"
    by code_simp
  have d: "diff_names example_loader (source_dir example_loader) example_listing ''gz''
      partial_mirror = [''b.gz'']"
    by code_simp
  from diff_names_set_difference
         [of example_loader "source_dir example_loader" example_listing "''gz''" partial_mirror]
  have "diff_names example_loader (source_dir example_loader) example_listing ''gz''
       (write_file (join mirror_dir (parse ''b.gz'')) ''remote b.gz'' partial_mirror) = []"
    using h by blast
  with h d show ?thesis by blast
qed

text \<open>
  C10. \<^verbatim>\<open>__diff\<close> never raises. An empty listing has no missing names, so the first
  entry of the listing is read only when there is one, and every target is the parent of
  the first entry joined with a missing name.
\<close>

theorem diff_total:
  "diff_names L sdir [] ext w = []
   \<and> diff L sdir lst ext w =
       Inr (case lst of [] \<Rightarrow> []
            | x # _ \<Rightarrow> map (\<lambda>n. join (parent (parse x)) (parse n)) (diff_names L sdir lst ext w))"
proof
  show e: "diff_names L sdir [] ext w = []"
    by (simp add: diff_names_def remote_names_def get_names_def)
  show "diff L sdir lst ext w =
       Inr (case lst of [] \<Rightarrow> []
            | x # _ \<Rightarrow> map (\<lambda>n. join (parent (parse x)) (parse n)) (diff_names L sdir lst ext w))"
    using e by (cases lst) (simp_all add: diff_def Let_def)
qed

section \<open>The download policy\<close>

lemma is_file_unlink [simp]: "is_file (unlink p w) q = (q \<noteq> p \<and> is_file w q)"
  by (auto simp: is_file_def unlink_def AList.delete_conv')

lemma download_file_skip:
  "suffix (join (target_dir L) f) \<notin> set sup_extensions \<Longrightarrow> download_file L S f t w = (None, w)"
  by (simp add: download_file.simps)

lemma download_file_fresh:
  "suffix (join (target_dir L) f) \<in> set sup_extensions \<Longrightarrow> \<not> is_file w (join (target_dir L) f) \<Longrightarrow>
   download_file L S f t w =
     (case ftp_get S f (join (target_dir L) f) w of
        (Some e, w1) \<Rightarrow> (Some e, w1)
      | (None, w1) \<Rightarrow> (None, log_event (LogInfo_Downloaded (join (target_dir L) f)) w1))"
  by (subst download_file.simps) (simp add: Let_def)

lemma download_file_gz:
  "suffix (join (target_dir L) f) = ''.gz'' \<Longrightarrow> is_file w (join (target_dir L) f) \<Longrightarrow>
   download_file L S f t w = (None, log_event (LogError_Already f) w)"
  by (subst download_file.simps) (simp add: Let_def sup_extensions_def checksum_def)

lemma download_file_md5:
  "suffix (join (target_dir L) f) = ''.md5'' \<Longrightarrow> is_file w (join (target_dir L) f) \<Longrightarrow>
   download_file L S f t w =
     (case ftp_get S f (join (target_dir L) f) (unlink (join (target_dir L) f) w) of
        (Some e, w1) \<Rightarrow> (Some e, w1)
      | (None, w1) \<Rightarrow> (None, log_event (LogInfo_Downloaded (join (target_dir L) f)) w1))"
  by (subst download_file.simps) (simp add: Let_def sup_extensions_def download_file_fresh)

text \<open>
  C5. When the destination exists, a payload file that passes verification keeps its
  bytes: the download returns normally, sends nothing to the server and only logs that
  the file is already there. A sidecar file is removed and fetched again; the
  destination then holds what the server delivered.
\<close>

theorem collision_policy:
  "(suffix (join (target_dir L) f) = ''.gz'' \<and> is_file w (join (target_dir L) f)
      \<and> checksum w (join (target_dir L) f) \<longrightarrow>
      (\<exists>w'. download_file L S f t w = (None, w') \<and> files w' = files w \<and> tick w' = tick w
          \<and> trace w' = trace w @ [LogError_Already f]))
   \<and> (suffix (join (target_dir L) f) = ''.md5'' \<and> is_file w (join (target_dir L) f) \<longrightarrow>
      (\<exists>w'. download_file L S f t w = (snd (srv_get S (tick w) f), w')
          \<and> files w' = AList.update (join (target_dir L) f) (fst (srv_get S (tick w) f))
                          (AList.delete (join (target_dir L) f) (files w))
          \<and> tick w' = Suc (tick w)
          \<and> trace w' = trace w @ [Unlink (join (target_dir L) f), FtpGet f]
               @ (if snd (srv_get S (tick w) f) = None
                  then [LogInfo_Downloaded (join (target_dir L) f)] else [])))"
proof (intro conjI impI)
  assume "suffix (join (target_dir L) f) = ''.gz'' \<and> is_file w (join (target_dir L) f)
      \<and> checksum w (join (target_dir L) f)"
  then show "\<exists>w'. download_file L S f t w = (None, w') \<and> files w' = files w \<and> tick w' = tick w
          \<and> trace w' = trace w @ [LogError_Already f]"
    by (simp add: download_file_gz log_event_def)
next
  assume a: "suffix (join (target_dir L) f) = ''.md5'' \<and> is_file w (join (target_dir L) f)"
  obtain data err where g: "srv_get S (tick w) f = (data, err)"
    by (cases "srv_get S (tick w) f")
  show "\<exists>w'. download_file L S f t w = (snd (srv_get S (tick w) f), w')
          \<and> files w' = AList.update (join (target_dir L) f) (fst (srv_get S (tick w) f))
                          (AList.delete (join (target_dir L) f) (files w))
          \<and> tick w' = Suc (tick w)
          \<and> trace w' = trace w @ [Unlink (join (target_dir L) f), FtpGet f]
               @ (if snd (srv_get S (tick w) f) = None
                  then [LogInfo_Downloaded (join (target_dir L) f)] else [])"
    using a g by (cases err) (simp_all add: download_file_md5 ftp_get_def unlink_def log_event_def)
qed


theorem collision_policy_witness:
  "(suffix (join (target_dir example_loader) (join remote_dir (parse ''a.gz''))) = ''.gz''
      \<and> is_file partial_mirror (join (target_dir example_loader) (join remote_dir (parse ''a.gz'')))
      \<and> checksum partial_mirror (join (target_dir example_loader) (join remote_dir (parse ''a.gz''))))
   \<and> (\<exists>w'. download_file example_loader reliable_server (join remote_dir (parse ''a.gz'')) 0
              partial_mirror = (None, w')
          \<and> files w' = files partial_mirror \<and> tick w' = tick partial_mirror
          \<and> trace w' = trace partial_mirror @ [LogError_Already (join remote_dir (parse ''a.gz''))])
   \<and> (suffix (join (target_dir example_loader) (join remote_dir (parse ''a.md5''))) = ''.md5''
      \<and> is_file partial_mirror (join (target_dir example_loader) (join remote_dir (parse ''a.md5''))))
   \<and> (\<exists>w'. download_file example_loader reliable_server (join remote_dir (parse ''a.md5'')) 0
              partial_mirror = (None, w')
          \<and> map_of (files w') (join mirror_dir (parse ''a.md5'')) = Some ''remote a.md5''
          \<and> map_of (files w') (join mirror_dir (parse ''a.gz'')) = Some ''local a.gz'')"
proof -
  have gz: "suffix (join (target_dir example_loader) (join remote_dir (parse ''a.gz''))) = ''.gz''
      \<and> is_file partial_mirror (join (target_dir example_loader) (join remote_dir (parse ''a.gz'')))
      \<and> checksum partial_mirror (join (target_dir example_loader) (join remote_dir (parse ''a.gz'')))"
    by code_simp
  have md5: "suffix (join (target_dir example_loader) (join remote_dir (parse ''a.md5''))) = ''.md5''
      \<and> is_file partial_mirror (join (target_dir example_loader) (join remote_dir (parse ''a.md5'')))"
    by code_simp
  from collision_policy
         [of example_loader "join remote_dir (parse ''a.gz'')" partial_mirror reliable_server 0]
  have 1: "\<exists>w'. download_file example_loader reliable_server (join remote_dir (parse ''a.gz'')) 0
              partial_mirror = (None, w')
          \<and> files w' = files partial_mirror \<and> tick w' = tick partial_mirror
          \<and> trace w' = trace partial_mirror @ [LogError_Already (join remote_dir (parse ''a.gz''))]"
    using gz by blast
  from collision_policy
         [of example_loader "join remote_dir (parse ''a.md5'')" partial_mirror reliable_server 0]
  obtain w' where w':
    "download_file example_loader reliable_server (join remote_dir (parse ''a.md5'')) 0
       partial_mirror = (snd (srv_get reliable_server (tick partial_mirror)
                                (join remote_dir (parse ''a.md5''))), w')"
    "files w' = AList.update (join (target_dir example_loader) (join remote_dir (parse ''a.md5'')))
                  (fst (srv_get reliable_server (tick partial_mirror)
                          (join remote_dir (parse ''a.md5''))))
                  (AList.delete (join (target_dir example_loader) (join remote_dir (parse ''a.md5'')))
                     (files partial_mirror))"
    using md5 by blast
  have e: "snd (srv_get reliable_server (tick partial_mirror)
                  (join remote_dir (parse ''a.md5''))) = None"
    by code_simp
  have f1: "map_of (AList.update (join (target_dir example_loader) (join remote_dir (parse ''a.md5'')))
                  (fst (srv_get reliable_server (tick partial_mirror)
                          (join remote_dir (parse ''a.md5''))))
                  (AList.delete (join (target_dir example_loader) (join remote_dir (parse ''a.md5'')))
                     (files partial_mirror))) (join mirror_dir (parse ''a.md5'')) = Some ''remote a.md5''"
    by code_simp
  have f2: "map_of (AList.update (join (target_dir example_loader) (join remote_dir (parse ''a.md5'')))
                  (fst (srv_get reliable_server (tick partial_mirror)
                          (join remote_dir (parse ''a.md5''))))
                  (AList.delete (join (target_dir example_loader) (join remote_dir (parse ''a.md5'')))
                     (files partial_mirror))) (join mirror_dir (parse ''a.gz'')) = Some ''local a.gz''"
    by code_simp
  from w' e f1 f2 have 2: "\<exists>w'. download_file example_loader reliable_server
              (join remote_dir (parse ''a.md5'')) 0 partial_mirror = (None, w')
          \<and> map_of (files w') (join mirror_dir (parse ''a.md5'')) = Some ''remote a.md5''
          \<and> map_of (files w') (join mirror_dir (parse ''a.gz'')) = Some ''local a.gz''"
    by simp
  from gz md5 1 2 show ?thesis by blast
qed

section \<open>The extraction pipeline\<close>

lemma suffix_str_length: "length (suffix_str n) \<le> length n"
  by (simp add: suffix_str_def split: option.splits)

lemma with_suffix_neq: "suffix p \<noteq> [] \<Longrightarrow> with_suffix p [] \<noteq> p"
proof
  assume s: "suffix p \<noteq> []" and e: "with_suffix p [] = p"
  from s have n: "name p \<noteq> []"
    by (auto simp: suffix_def suffix_str_def)
  then have ps: "parts p \<noteq> []" "name p = last (parts p)"
    by (auto simp: name_def split: if_splits)
  define k where "k = length (name p) - length (suffix p)"
  from e have "parts (with_suffix p []) = parts p" by simp
  then have A: "butlast (parts p) @ [take k (name p)] = parts p"
    by (simp add: with_suffix_def k_def)
  have B: "butlast (parts p) @ [last (parts p)] = parts p"
    using ps by simp
  from A B have "take k (name p) = last (parts p)"
    by (metis append1_eq_conv)
  with ps have "length (take k (name p)) = length (name p)"
    by simp
  moreover from s n have "k < length (name p)"
    by (simp add: k_def)
  ultimately show False by simp
qed

lemma gunzip_content_ok:
  "suffix file \<noteq> [] \<Longrightarrow> map_of (files w) file = Some c \<Longrightarrow> G c = Inr d \<Longrightarrow>
   gunzip_content G file w =
     (Inr (with_suffix file []),
      write_file (with_suffix file []) d (write_file (with_suffix file []) [] w))"
  using with_suffix_neq [of "file"]
  by (simp add: gunzip_content_def Let_def write_file_def AList.update_conv')

lemma gunzip_content_err:
  "suffix file \<noteq> [] \<Longrightarrow> map_of (files w) file = Some c \<Longrightarrow> G c = Inl e \<Longrightarrow>
   gunzip_content G file w = (Inl e, write_file (with_suffix file []) [] w)"
  using with_suffix_neq [of "file"]
  by (simp add: gunzip_content_def Let_def write_file_def AList.update_conv')

lemma extract_files_good:
  "suffix (join root (parse f)) = ''.gz'' \<Longrightarrow>
   map_of (files w) (join root (parse f)) = Some c \<Longrightarrow> G c = Inr d \<Longrightarrow>
   \<forall>w'. H (with_suffix (join root (parse f)) []) w' = None \<Longrightarrow>
   extract_files G H root (f # fs) w =
     extract_files G H root fs
       (unlink (with_suffix (join root (parse f)) [])
          (log_event (HandlerCall (with_suffix (join root (parse f)) []))
             (write_file (with_suffix (join root (parse f)) []) d
                (write_file (with_suffix (join root (parse f)) []) [] w))))"
  by (simp add: gunzip_content_ok Let_def)

lemma extract_files_truncated:
  "suffix (join root (parse f)) = ''.gz'' \<Longrightarrow>
   map_of (files w) (join root (parse f)) = Some c \<Longrightarrow> G c = Inl EOFError \<Longrightarrow>
   extract_files G H root (f # fs) w =
     extract_files G H root fs
       (log_event (LogError_File (join root (parse f)) EOFError)
          (write_file (with_suffix (join root (parse f)) []) [] w))"
  by (simp add: gunzip_content_err Let_def)


lemma os_walk_leaf:
  "walk_dirs ks d = [] \<Longrightarrow> os_walk ks d = [(d, [], walk_files ks d)]"
  by (subst os_walk.simps) simp

text \<open>
  When decompression succeeds and the handler returns, the decompressed sibling is gone
  after the step.
\<close>

lemma extract_step_cleans_up:
  assumes "suffix (join root (parse f)) = ''.gz''"
    and "map_of (files w) (join root (parse f)) = Some c" and "G c = Inr d"
    and "\<forall>w'. H (with_suffix (join root (parse f)) []) w' = None"
  shows "\<exists>w'. extract_files G H root [f] w = (None, w')
           \<and> \<not> is_file w' (with_suffix (join root (parse f)) [])"
proof -
  have "extract_files G H root [f] w =
     extract_files G H root []
       (unlink (with_suffix (join root (parse f)) [])
          (log_event (HandlerCall (with_suffix (join root (parse f)) []))
             (write_file (with_suffix (join root (parse f)) []) d
                (write_file (with_suffix (join root (parse f)) []) [] w))))"
    using assms by (rule extract_files_good [where G = G and c = c and d = d])
  then show ?thesis
    unfolding extract_files.simps(1)
    by (simp add: is_file_def unlink_def AList.delete_conv')
qed

text \<open>
  C6, as amended. A directory holds a well-formed archive and a truncated one, that is
  one whose decompression raises \<^verbatim>\<open>EOFError\<close>, and the decompressed sibling of
  neither is the other archive. Whatever the order of the two, the walk returns
  normally, the handler is called once, on the decompressed well-formed archive, and one
  error is logged for the truncated archive.
\<close>

theorem truncated_archive_skipped:
  assumes gz: "suffix (join root (parse n1)) = ''.gz''" "suffix (join root (parse n2)) = ''.gz''"
    and good: "map_of (files w) (join root (parse n1)) = Some c1" "G c1 = Inr d1"
    and bad: "map_of (files w) (join root (parse n2)) = Some c2" "G c2 = Inl EOFError"
    and h: "\<forall>w'. H (with_suffix (join root (parse n1)) []) w' = None"
    and apart: "with_suffix (join root (parse n1)) [] \<noteq> join root (parse n2)"
      "with_suffix (join root (parse n2)) [] \<noteq> join root (parse n1)"
  shows "(\<exists>w'. extract_walk G H [(root, dirs, [n1, n2])] w = (None, w')
            \<and> trace w' = trace w @ [HandlerCall (with_suffix (join root (parse n1)) []),
                                    Unlink (with_suffix (join root (parse n1)) []),
                                    LogError_File (join root (parse n2)) EOFError])
       \<and> (\<exists>w'. extract_walk G H [(root, dirs, [n2, n1])] w = (None, w')
            \<and> trace w' = trace w @ [LogError_File (join root (parse n2)) EOFError,
                                    HandlerCall (with_suffix (join root (parse n1)) []),
                                    Unlink (with_suffix (join root (parse n1)) [])])"
proof
  let ?p1 = "join root (parse n1)" and ?p2 = "join root (parse n2)"
  let ?s1 = "with_suffix ?p1 []" and ?s2 = "with_suffix ?p2 []"
  let ?w1 = "unlink ?s1 (log_event (HandlerCall ?s1) (write_file ?s1 d1 (write_file ?s1 [] w)))"
  have 1: "extract_files G H root [n1, n2] w = extract_files G H root [n2] ?w1"
    using gz(1) good h by (rule extract_files_good [where G = G and c = c1 and d = d1])
  have "map_of (files ?w1) ?p2 = Some c2"
    using bad(1) apart(1)
    by (simp add: unlink_def log_event_def write_file_def AList.update_conv' AList.delete_conv')
  with gz(2) have 2: "extract_files G H root [n2] ?w1 =
      extract_files G H root [] (log_event (LogError_File ?p2 EOFError) (write_file ?s2 [] ?w1))"
    using bad(2) by (rule extract_files_truncated [where G = G and c = c2])
  show "\<exists>w'. extract_walk G H [(root, dirs, [n1, n2])] w = (None, w')
            \<and> trace w' = trace w @ [HandlerCall ?s1, Unlink ?s1, LogError_File ?p2 EOFError]"
    unfolding extract_walk.simps 1 2 extract_files.simps(1)
    by (simp add: unlink_def log_event_def write_file_def)
next
  let ?p1 = "join root (parse n1)" and ?p2 = "join root (parse n2)"
  let ?s1 = "with_suffix ?p1 []" and ?s2 = "with_suffix ?p2 []"
  let ?w1 = "log_event (LogError_File ?p2 EOFError) (write_file ?s2 [] w)"
  let ?w2 = "unlink ?s1 (log_event (HandlerCall ?s1) (write_file ?s1 d1 (write_file ?s1 [] ?w1)))"
  have 1: "extract_files G H root [n2, n1] w = extract_files G H root [n1] ?w1"
    using gz(2) bad by (rule extract_files_truncated [where G = G and c = c2])
  have "map_of (files ?w1) ?p1 = Some c1"
    using good(1) apart(2)
    by (simp add: log_event_def write_file_def AList.update_conv')
  with gz(1) have 2: "extract_files G H root [n1] ?w1 = extract_files G H root [] ?w2"
    using good(2) h by (rule extract_files_good [where G = G and c = c1 and d = d1])
  show "\<exists>w'. extract_walk G H [(root, dirs, [n2, n1])] w = (None, w')
            \<and> trace w' = trace w @ [LogError_File ?p2 EOFError, HandlerCall ?s1, Unlink ?s1]"
    unfolding extract_walk.simps 1 2 extract_files.simps(1)
    by (simp add: unlink_def log_event_def write_file_def)
qed

theorem truncated_archive_skipped_witness:
  "suffix (join (chembl_dir example_extractor) (parse ''a.sdf.gz'')) = ''.gz''
   \<and> suffix (join (chembl_dir example_extractor) (parse ''b.sdf.gz'')) = ''.gz''
   \<and> map_of (files truncated_tree) (join (chembl_dir example_extractor) (parse ''a.sdf.gz''))
       = Some ''well-formed archive''
   \<and> example_gunzip ''well-formed archive'' = Inr ''records''
   \<and> map_of (files truncated_tree) (join (chembl_dir example_extractor) (parse ''b.sdf.gz''))
       = Some ''truncated archive''
   \<and> example_gunzip ''truncated archive'' = Inl EOFError
   \<and> (\<forall>w'. accepting_handler
             (with_suffix (join (chembl_dir example_extractor) (parse ''a.sdf.gz'')) []) w' = None)
   \<and> with_suffix (join (chembl_dir example_extractor) (parse ''a.sdf.gz'')) []
       \<noteq> join (chembl_dir example_extractor) (parse ''b.sdf.gz'')
   \<and> with_suffix (join (chembl_dir example_extractor) (parse ''b.sdf.gz'')) []
       \<noteq> join (chembl_dir example_extractor) (parse ''a.sdf.gz'')
   \<and> (\<exists>w'. Extractor_extract example_extractor example_gunzip accepting_handler truncated_tree
             = (None, w')
          \<and> trace w' = trace truncated_tree
               @ [HandlerCall (with_suffix (join (chembl_dir example_extractor)
                                              (parse ''a.sdf.gz'')) []),
                  Unlink (with_suffix (join (chembl_dir example_extractor)
                                         (parse ''a.sdf.gz'')) []),
                  LogError_File (join (chembl_dir example_extractor) (parse ''b.sdf.gz''))
                    EOFError])"
proof -
  have gz: "suffix (join (chembl_dir example_extractor) (parse ''a.sdf.gz'')) = ''.gz''"
    "suffix (join (chembl_dir example_extractor) (parse ''b.sdf.gz'')) = ''.gz''"
    by code_simp+
  have good: "map_of (files truncated_tree)
       (join (chembl_dir example_extractor) (parse ''a.sdf.gz'')) = Some ''well-formed archive''"
    "example_gunzip ''well-formed archive'' = Inr ''records''"
    by code_simp+
  have bad: "map_of (files truncated_tree)
       (join (chembl_dir example_extractor) (parse ''b.sdf.gz'')) = Some ''truncated archive''"
    "example_gunzip ''truncated archive'' = Inl EOFError"
    by code_simp+
  have h: "\<forall>w'. accepting_handler
             (with_suffix (join (chembl_dir example_extractor) (parse ''a.sdf.gz'')) []) w' = None"
    by (simp add: accepting_handler_def)
  have apart: "with_suffix (join (chembl_dir example_extractor) (parse ''a.sdf.gz'')) []
       \<noteq> join (chembl_dir example_extractor) (parse ''b.sdf.gz'')"
    "with_suffix (join (chembl_dir example_extractor) (parse ''b.sdf.gz'')) []
       \<noteq> join (chembl_dir example_extractor) (parse ''a.sdf.gz'')"
    by code_simp+
  have "walk_dirs (map fst (files truncated_tree)) (chembl_dir example_extractor) = []"
    by code_simp
  moreover have "walk_files (map fst (files truncated_tree)) (chembl_dir example_extractor)
      = [''a.sdf.gz'', ''b.sdf.gz'']"
    by code_simp
  ultimately have walk:
    "os_walk (map fst (files truncated_tree)) (chembl_dir example_extractor)
      = [(chembl_dir example_extractor, [], [''a.sdf.gz'', ''b.sdf.gz''])]"
    by (simp only: os_walk_leaf)
  have "\<exists>w'. extract_walk example_gunzip accepting_handler
            [(chembl_dir example_extractor, [], [''a.sdf.gz'', ''b.sdf.gz''])] truncated_tree
             = (None, w')
          \<and> trace w' = trace truncated_tree
               @ [HandlerCall (with_suffix (join (chembl_dir example_extractor)
                                              (parse ''a.sdf.gz'')) []),
                  Unlink (with_suffix (join (chembl_dir example_extractor)
                                         (parse ''a.sdf.gz'')) []),
                  LogError_File (join (chembl_dir example_extractor) (parse ''b.sdf.gz''))
                    EOFError]"
    by (rule truncated_archive_skipped
          [where G = example_gunzip and H = accepting_handler
             and root = "chembl_dir example_extractor"
             and ?n1.0 = "''a.sdf.gz''" and ?n2.0 = "''b.sdf.gz''" and w = truncated_tree
             and ?c1.0 = "''well-formed archive''" and ?d1.0 = "''records''"
             and ?c2.0 = "''truncated archive''" and dirs = "[]",
           OF gz good bad h apart, THEN conjunct1])
  then have run: "\<exists>w'. Extractor_extract example_extractor example_gunzip accepting_handler
             truncated_tree = (None, w')
          \<and> trace w' = trace truncated_tree
               @ [HandlerCall (with_suffix (join (chembl_dir example_extractor)
                                              (parse ''a.sdf.gz'')) []),
                  Unlink (with_suffix (join (chembl_dir example_extractor)
                                         (parse ''a.sdf.gz'')) []),
                  LogError_File (join (chembl_dir example_extractor) (parse ''b.sdf.gz''))
                    EOFError]"
    by (simp only: Extractor_extract_def walk)
  show ?thesis
    by (intro conjI gz good bad h apart run)
qed

text \<open>
  C6 as stated fails for an archive that is not gzip data: \<^verbatim>\<open>BadGzipFile\<close> is not
  an \<^verbatim>\<open>EOFError\<close>, so it leaves \<^verbatim>\<open>extract\<close>, and nothing is logged for the
  file.
\<close>

theorem invalid_archive_aborts_walk:
  "Extractor_extract example_extractor example_gunzip accepting_handler invalid_tree
     = (Some BadGzipFile,
        \<lparr>files = [(parse ''pubchem_dir/a.sdf.gz'', ''well-formed archive''),
                  (parse ''pubchem_dir/b.sdf.gz'', ''not an archive''),
                  (parse ''pubchem_dir/b.sdf'', [])],
         tick = 0,
         trace = [HandlerCall (parse ''pubchem_dir/a.sdf''), Unlink (parse ''pubchem_dir/a.sdf'')]\<rparr>)"
proof -
  have "walk_dirs (map fst (files invalid_tree)) (chembl_dir example_extractor) = []"
    by code_simp
  moreover have "walk_files (map fst (files invalid_tree)) (chembl_dir example_extractor)
      = [''a.sdf.gz'', ''b.sdf.gz'']"
    by code_simp
  ultimately have walk:
    "os_walk (map fst (files invalid_tree)) (chembl_dir example_extractor)
      = [(chembl_dir example_extractor, [], [''a.sdf.gz'', ''b.sdf.gz''])]"
    by (simp only: os_walk_leaf)
  show ?thesis
    unfolding Extractor_extract_def walk by code_simp
qed

text \<open>
  C2. The sibling is removed only on the path where the handler returns. After a
  truncated archive the empty sibling that \<^verbatim>\<open>__gunzip_content\<close> created stays on
  disk, and after a handler that raises the decompressed sibling stays on disk.
\<close>

theorem failed_step_leaves_sibling:
  "fst (Extractor_extract example_extractor example_gunzip accepting_handler truncated_tree) = None
   \<and> map_of (files (snd (Extractor_extract example_extractor example_gunzip accepting_handler
                           truncated_tree))) (parse ''pubchem_dir/b.sdf'') = Some []
   \<and> fst (Extractor_extract example_extractor example_gunzip failing_handler truncated_tree)
       = Some (OtherError ''ingestion failed'')
   \<and> map_of (files (snd (Extractor_extract example_extractor example_gunzip failing_handler
                           truncated_tree))) (parse ''pubchem_dir/a.sdf'') = Some ''records''"
proof -
  have "walk_dirs (map fst (files truncated_tree)) (chembl_dir example_extractor) = []"
    by code_simp
  moreover have "walk_files (map fst (files truncated_tree)) (chembl_dir example_extractor)
      = [''a.sdf.gz'', ''b.sdf.gz'']"
    by code_simp
  ultimately have walk:
    "os_walk (map fst (files truncated_tree)) (chembl_dir example_extractor)
      = [(chembl_dir example_extractor, [], [''a.sdf.gz'', ''b.sdf.gz''])]"
    by (simp only: os_walk_leaf)
  show ?thesis
    unfolding Extractor_extract_def walk by code_simp
qed

section \<open>Names and targets of the diff\<close>

lemma split_slash_nonempty: "split_slash s \<noteq> []"
  by (induction s) (auto split: list.splits)

lemma split_slash_no_slash: "c \<in> set (split_slash s) \<Longrightarrow> CHR ''/'' \<notin> set c"
  by (induction s arbitrary: c) (auto split: if_splits list.splits)

lemma split_slash_simple: "CHR ''/'' \<notin> set c \<Longrightarrow> split_slash c = [c]"
  by (induction c) auto

lemma parse_simple:
  assumes "CHR ''/'' \<notin> set n" and "n \<noteq> []" and "n \<noteq> ''.''"
  shows "parse n = Path False [n]"
  using assms by (cases n) (auto simp: parse_def split_slash_simple)

lemma name_parse_simple:
  assumes "name (parse x) \<noteq> []"
  shows "parse (name (parse x)) = Path False [name (parse x)]"
proof -
  let ?ps = "filter (\<lambda>c. c \<noteq> [] \<and> c \<noteq> ''.'') (split_slash x)"
  from assms have ne: "?ps \<noteq> []" and n: "name (parse x) = last ?ps"
    by (auto simp: name_def parse_def split: if_splits)
  from ne have "last ?ps \<in> set ?ps" by (rule last_in_set)
  then have "last ?ps \<in> set (split_slash x)" "last ?ps \<noteq> []" "last ?ps \<noteq> ''.''"
    by auto
  with n show ?thesis
    by (simp add: parse_simple split_slash_no_slash)
qed

lemma suffix_nonempty_name: "suffix p = CHR ''.'' # ext \<Longrightarrow> name p \<noteq> []"
  by (auto simp: suffix_def suffix_str_def)

lemma remote_names_simple:
  assumes "n \<in> set (remote_names lst ext)"
  shows "parse n = Path False [n]" and "suffix_str n = CHR ''.'' # ext"
proof -
  from assms obtain x where x: "n = name (parse x)" "suffix (parse n) = CHR ''.'' # ext"
    by (auto simp: set_remote_names)
  from x(2) have "name (parse n) \<noteq> []" by (rule suffix_nonempty_name)
  then have "n \<noteq> []"
    by (auto simp: name_def parse_def)
  with x(1) show p: "parse n = Path False [n]"
    by (simp add: name_parse_simple)
  from x(2) show "suffix_str n = CHR ''.'' # ext"
    by (simp add: p suffix_def name_def)
qed

lemma join_assoc: "join a (join b c) = join (join a b) c"
  by (simp add: join_def)

lemma name_join_simple [simp]: "name (join d (Path False [n])) = n"
  by (simp add: name_def join_def)

lemma suffix_join_simple [simp]: "suffix (join d (Path False [n])) = suffix_str n"
  by (simp add: suffix_def)

lemma in_dir_join_simple [simp]: "in_dir d (join d (Path False [n]))"
  by (cases d) (simp add: in_dir_def join_def parent_def)

lemma diff_Inr:
  "diff L sdir lst ext w =
       Inr (case lst of [] \<Rightarrow> []
            | x # _ \<Rightarrow> map (\<lambda>n. join (parent (parse x)) (parse n)) (diff_names L sdir lst ext w))"
proof -
  have e: "diff_names L sdir [] ext w = []"
    by (simp add: diff_names_def remote_names_def get_names_def)
  then show ?thesis
    by (cases lst) (simp_all add: diff_def Let_def)
qed




section \<open>The sync pass\<close>

lemma download_file_cases:
  obtains (skip) "suffix (join (target_dir L) f) \<notin> set sup_extensions"
    | (fresh) "suffix (join (target_dir L) f) \<in> set sup_extensions"
        "\<not> is_file w (join (target_dir L) f)"
    | (md5) "suffix (join (target_dir L) f) = ''.md5''" "is_file w (join (target_dir L) f)"
    | (gz) "suffix (join (target_dir L) f) = ''.gz''" "is_file w (join (target_dir L) f)"
  by (auto simp: sup_extensions_def)









lemma is_file_log_event [simp]: "is_file (log_event e w) p = is_file w p"
  by (simp add: is_file_def log_event_def)

lemma is_file_log_events [simp]: "is_file (log_events es w) p = is_file w p"
  by (simp add: is_file_def log_events_def)

lemma is_file_ftp_get:
  "ftp_get S f pth w = (r, w') \<Longrightarrow> is_file w' p = (p = pth \<or> is_file w p)"
  by (cases "srv_get S (tick w) f") (auto simp: ftp_get_def is_file_def AList.update_conv')

lemma download_file_keeps:
  assumes "download_file L S f t w = (r, w')" and "is_file w p"
  shows "is_file w' p"
proof (cases rule: download_file_cases [where L = L and f = f and w = w])
  case skip
  with assms show ?thesis by (simp add: download_file_skip)
next
  case fresh
  obtain r1 w1 where g: "ftp_get S f (join (target_dir L) f) w = (r1, w1)"
    by (cases "ftp_get S f (join (target_dir L) f) w")
  with assms fresh have "w' = w1 \<or> w' = log_event (LogInfo_Downloaded (join (target_dir L) f)) w1"
    by (cases r1) (auto simp: download_file_fresh)
  with is_file_ftp_get [OF g, of p] assms(2) show ?thesis by auto
next
  case md5
  obtain r1 w1 where
    g: "ftp_get S f (join (target_dir L) f) (unlink (join (target_dir L) f) w) = (r1, w1)"
    by (cases "ftp_get S f (join (target_dir L) f) (unlink (join (target_dir L) f) w)")
  with assms md5 have "w' = w1 \<or> w' = log_event (LogInfo_Downloaded (join (target_dir L) f)) w1"
    by (cases r1) (auto simp: download_file_md5)
  with is_file_ftp_get [OF g, of p] assms(2) show ?thesis by auto
next
  case gz
  with assms show ?thesis by (auto simp: download_file_gz)
qed

lemma download_file_creates:
  assumes "download_file L S f t w = (r, w')"
    and "suffix (join (target_dir L) f) \<in> set sup_extensions"
  shows "is_file w' (join (target_dir L) f)"
proof (cases rule: download_file_cases [where L = L and f = f and w = w])
  case skip
  with assms show ?thesis by simp
next
  case fresh
  obtain r1 w1 where g: "ftp_get S f (join (target_dir L) f) w = (r1, w1)"
    by (cases "ftp_get S f (join (target_dir L) f) w")
  with assms fresh have "w' = w1 \<or> w' = log_event (LogInfo_Downloaded (join (target_dir L) f)) w1"
    by (cases r1) (auto simp: download_file_fresh)
  with is_file_ftp_get [OF g, of "join (target_dir L) f"] show ?thesis by auto
next
  case md5
  with download_file_keeps [OF assms(1)] show ?thesis by simp
next
  case gz
  with download_file_keeps [OF assms(1)] show ?thesis by simp
qed

lemma download_all_keeps:
  assumes keeps: "\<forall>v q v' p. retry v = Some (q, v') \<longrightarrow> is_file v p \<longrightarrow> is_file v' p"
    and "download_all L S retry fs w = Some (r, w')" and "is_file w p"
  shows "is_file w' p"
  using assms(2,3)
proof (induction fs arbitrary: w)
  case Nil
  then show ?case by simp
next
  case (Cons f fs)
  obtain r1 w1 where d: "download_file L S f 0 (log_event (LogInfo_Start f) w) = (r1, w1)"
    by (cases "download_file L S f 0 (log_event (LogInfo_Start f) w)")
  from download_file_keeps [OF d, of p] Cons.prems(2) have w1: "is_file w1 p" by simp
  show ?case
  proof (cases r1)
    case None
    with Cons.prems d have "download_all L S retry fs w1 = Some (r, w')" by simp
    from Cons.IH [OF this w1] show ?thesis .
  next
    case (Some err)
    let ?w1 = "log_events [LogWarning_Sleep err, Sleep 5, LogWarning_Retry] w1"
    from Cons.prems d Some obtain r2 w2 where r2: "retry ?w1 = Some (r2, w2)"
      by (cases "retry ?w1") auto
    from keeps r2 w1 have w2: "is_file w2 p" by (metis is_file_log_events)
    show ?thesis
    proof (cases r2)
      case None
      with Cons.prems d Some r2 have "download_all L S retry fs w2 = Some (r, w')" by simp
      from Cons.IH [OF this w2] show ?thesis .
    next
      case (Some e)
      with Cons.prems d \<open>r1 = Some err\<close> r2 have "w' = w2" by simp
      with w2 show ?thesis by simp
    qed
  qed
qed

lemma download_all_creates:
  assumes keeps: "\<forall>v q v' p. retry v = Some (q, v') \<longrightarrow> is_file v p \<longrightarrow> is_file v' p"
    and "download_all L S retry fs w = Some (None, w')"
    and "f \<in> set fs" and "suffix (join (target_dir L) f) \<in> set sup_extensions"
  shows "is_file w' (join (target_dir L) f)"
  using assms(2,3)
proof (induction fs arbitrary: w)
  case Nil
  then show ?case by simp
next
  case (Cons g fs)
  obtain r1 w1 where d: "download_file L S g 0 (log_event (LogInfo_Start g) w) = (r1, w1)"
    by (cases "download_file L S g 0 (log_event (LogInfo_Start g) w)")
  have w1: "is_file w1 (join (target_dir L) f)" if "f = g"
    using download_file_creates [OF d] assms(4) that by simp
  show ?case
  proof (cases r1)
    case None
    with Cons.prems d have rest: "download_all L S retry fs w1 = Some (None, w')" by simp
    show ?thesis
    proof (cases "f = g")
      case True
      from download_all_keeps [OF keeps rest w1 [OF True]] show ?thesis .
    next
      case False
      with Cons.prems(2) have "f \<in> set fs" by simp
      from Cons.IH [OF rest this] show ?thesis .
    qed
  next
    case (Some err)
    let ?w1 = "log_events [LogWarning_Sleep err, Sleep 5, LogWarning_Retry] w1"
    from Cons.prems d Some obtain r2 w2 where r2: "retry ?w1 = Some (r2, w2)"
      by (cases "retry ?w1") auto
    from Cons.prems d Some r2 have r2n: "r2 = None"
      by (cases r2) auto
    with Cons.prems d Some r2 have rest: "download_all L S retry fs w2 = Some (None, w')"
      by simp
    show ?thesis
    proof (cases "f = g")
      case True
      from keeps r2 w1 [OF True] have "is_file w2 (join (target_dir L) f)"
        by (metis is_file_log_events)
      from download_all_keeps [OF keeps rest this] show ?thesis .
    next
      case False
      with Cons.prems(2) have "f \<in> set fs" by simp
      from Cons.IH [OF rest this] show ?thesis .
    qed
  qed
qed


lemma sync_class_keeps:
  assumes keeps: "\<forall>v q v' p. retry v = Some (q, v') \<longrightarrow> is_file v p \<longrightarrow> is_file v' p"
    and "sync_class L S retry sfx w = Some (r, w')" and "is_file w p"
  shows "is_file w' p"
proof -
  let ?w1 = "w\<lparr>tick := Suc (tick w), trace := trace w @ [FtpList (source_dir L)]\<rparr>"
  have w1: "is_file ?w1 p" using assms(3) by (simp add: is_file_def)
  show ?thesis
  proof (cases "srv_list S (tick w) (source_dir L)")
    case (Inl e)
    with assms(2) w1 show ?thesis by (auto simp: sync_class_def ftp_list_def)
  next
    case (Inr lst)
    obtain targets where t: "diff L (source_dir L) lst (tl sfx) ?w1 = Inr targets"
      by (simp add: diff_Inr)
    with assms(2) Inr have "download_all L S retry targets ?w1 = Some (r, w')"
      by (simp add: sync_class_def ftp_list_def)
    from download_all_keeps [OF keeps this w1] show ?thesis .
  qed
qed

lemma sync_classes_keeps:
  assumes keeps: "\<forall>v q v' p. retry v = Some (q, v') \<longrightarrow> is_file v p \<longrightarrow> is_file v' p"
    and "sync_classes L S retry exts w = Some (r, w')" and "is_file w p"
  shows "is_file w' p"
  using assms(2,3)
proof (induction exts arbitrary: w)
  case Nil
  then show ?case by simp
next
  case (Cons sfx exts)
  from Cons.prems obtain r1 w1 where 1: "sync_class L S retry sfx w = Some (r1, w1)"
    by (cases "sync_class L S retry sfx w") auto
  from sync_class_keeps [OF keeps 1 Cons.prems(2)] have w1: "is_file w1 p" .
  show ?case
  proof (cases r1)
    case None
    with Cons.prems 1 have "sync_classes L S retry exts w1 = Some (r, w')" by simp
    from Cons.IH [OF this w1] show ?thesis .
  next
    case (Some e)
    with Cons.prems 1 have "w' = w1" by simp
    with w1 show ?thesis by simp
  qed
qed

lemma full_download_keeps:
  "full_download k L S w = Some (r, w') \<Longrightarrow> is_file w p \<Longrightarrow> is_file w' p"
proof (induction k arbitrary: w r w' p)
  case 0
  then show ?case by simp
next
  case (Suc k)
  let ?w0 = "w\<lparr>tick := Suc (tick w), trace := trace w @ [Connect]\<rparr>"
  have w0: "is_file ?w0 p" using Suc.prems(2) by (simp add: is_file_def)
  show ?case
  proof (cases "srv_connect S (tick w)")
    case (Some e)
    with Suc.prems(1) w0 show ?thesis by (auto simp: ftp_connect_def)
  next
    case None
    with Suc.prems(1) obtain w1 where
      1: "sync_classes L S (full_download k L S) sup_extensions ?w0 = Some (r, w1)"
      and w': "w' = ftp_close w1"
      by (auto simp: ftp_connect_def split: option.splits)
    have keeps: "\<forall>v q v' p. full_download k L S v = Some (q, v')
        \<longrightarrow> is_file v p \<longrightarrow> is_file v' p"
      using Suc.IH by blast
    from sync_classes_keeps [OF keeps 1 w0] w' show ?thesis
      by (simp add: ftp_close_def)
  qed
qed

lemma is_file_iff: "is_file w p \<longleftrightarrow> p \<in> fst ` set (files w)"
  by (simp add: is_file_def map_of_eq_None_iff)

lemma local_names_iff:
  "n \<in> set (local_names L sdir ext w) \<longleftrightarrow>
     (\<exists>p. is_file w p \<and> in_dir (join (target_dir L) (parse sdir)) p
          \<and> glob_match ext (name p) \<and> n = name p)"
  by (auto simp: set_local_names is_file_iff)

lemma diff_names_empty_iff:
  "diff_names L sdir lst ext w = [] \<longleftrightarrow>
     set (remote_names lst ext) \<subseteq> set (local_names L sdir ext w)"
  by (auto simp: diff_names_def filter_empty_conv)

lemma diff_names_empty_keeps:
  assumes "diff_names L sdir lst ext w = []" and "\<forall>p. is_file w p \<longrightarrow> is_file w' p"
  shows "diff_names L sdir lst ext w' = []"
proof -
  have "n \<in> set (local_names L sdir ext w')" if "n \<in> set (local_names L sdir ext w)" for n
    using that assms(2) unfolding local_names_iff by blast
  with assms(1) show ?thesis unfolding diff_names_empty_iff by blast
qed

lemma diff_names_files_cong:
  "files w = files w' \<Longrightarrow> diff_names L sdir lst ext w = diff_names L sdir lst ext w'"
  by (simp add: diff_names_def local_names_def scandir_def)


lemma diff_names_tick [simp]:
  "diff_names L sdir lst ext (w\<lparr>tick := t\<rparr>) = diff_names L sdir lst ext w"
  by (rule diff_names_files_cong) simp

lemma diff_names_trace [simp]:
  "diff_names L sdir lst ext (w\<lparr>trace := tr\<rparr>) = diff_names L sdir lst ext w"
  by (rule diff_names_files_cong) simp

lemma sync_class_complete:
  assumes keeps: "\<forall>v q v' p. retry v = Some (q, v') \<longrightarrow> is_file v p \<longrightarrow> is_file v' p"
    and lst: "srv_list S (tick w) (source_dir L) = Inr lst"
    and contract: "\<forall>x \<in> set lst. parent (parse x) = parse (source_dir L)"
    and sfx: "sfx \<in> set sup_extensions"
    and run: "sync_class L S retry sfx w = Some (None, w')"
  shows "diff_names L (source_dir L) lst (tl sfx) w' = []"
proof -
  let ?w1 = "w\<lparr>tick := Suc (tick w), trace := trace w @ [FtpList (source_dir L)]\<rparr>"
  let ?inv = "join (target_dir L) (parse (source_dir L))"
  from sfx have dot: "CHR ''.'' # tl sfx = sfx"
    by (auto simp: sup_extensions_def)
  obtain targets where t: "diff L (source_dir L) lst (tl sfx) ?w1 = Inr targets"
    by (simp add: diff_Inr)
  with run lst have d: "download_all L S retry targets ?w1 = Some (None, w')"
    by (simp add: sync_class_def ftp_list_def)
  have "n \<in> set (local_names L (source_dir L) (tl sfx) w')"
    if n: "n \<in> set (remote_names lst (tl sfx))" for n
  proof (cases "n \<in> set (local_names L (source_dir L) (tl sfx) ?w1)")
    case True
    then obtain p where p: "is_file ?w1 p" "in_dir ?inv p" "glob_match (tl sfx) (name p)"
        "n = name p"
      unfolding local_names_iff by blast
    from download_all_keeps [OF keeps d p(1)] p(2,3,4) show ?thesis
      unfolding local_names_iff by blast
  next
    case False
    with n have dn: "n \<in> set (diff_names L (source_dir L) lst (tl sfx) ?w1)"
      by (simp add: diff_names_def)
    from n obtain x rest where x: "lst = x # rest"
      by (cases lst) (auto simp: remote_names_def get_names_def)
    from remote_names_simple [OF n] have simple: "parse n = Path False [n]"
      and suf: "suffix_str n = CHR ''.'' # tl sfx" .
    from contract x have par: "parent (parse x) = parse (source_dir L)" by simp
    let ?f = "join (parent (parse x)) (parse n)"
    from t dn x have f: "?f \<in> set targets"
      by (auto simp: diff_Inr)
    have pth: "join (target_dir L) ?f = join ?inv (Path False [n])"
      by (simp add: par simple join_assoc)
    have "suffix (join (target_dir L) ?f) \<in> set sup_extensions"
      using suf dot sfx by (simp add: pth)
    from download_all_creates [OF keeps d f this] have "is_file w' (join ?inv (Path False [n]))"
      by (simp add: pth)
    moreover have "glob_match (tl sfx) n"
      using suf by (rule suffix_str_glob)
    ultimately show ?thesis
      unfolding local_names_iff
      by (intro exI [of _ "join ?inv (Path False [n])"]) simp
  qed
  then show ?thesis
    unfolding diff_names_empty_iff by blast
qed

lemma sync_class_nothing_missing:
  assumes lst: "srv_list S (tick w) (source_dir L) = Inr lst"
    and "diff_names L (source_dir L) lst (tl sfx) w = []"
  shows "sync_class L S retry sfx w =
     Some (None, w\<lparr>tick := Suc (tick w), trace := trace w @ [FtpList (source_dir L)]\<rparr>)"
proof -
  let ?w1 = "w\<lparr>tick := Suc (tick w), trace := trace w @ [FtpList (source_dir L)]\<rparr>"
  have "diff_names L (source_dir L) lst (tl sfx) ?w1 = diff_names L (source_dir L) lst (tl sfx) w"
    by (rule diff_names_files_cong) simp
  with assms(2) have "diff L (source_dir L) lst (tl sfx) ?w1 = Inr []"
    by (simp add: diff_def)
  with lst show ?thesis
    by (simp add: sync_class_def ftp_list_def)
qed

text \<open>
  C4. The server always connects and always answers the listing with the same entries,
  each of them a path directly inside the listed directory. If a first pass returns
  normally, with or without retries on the way, then a second pass returns normally,
  leaves the files as they are, and sends nothing to the server but the connection and
  the two listings.
\<close>

theorem sync_idempotent:
  assumes conn: "\<forall>t. srv_connect S t = None"
    and lst: "\<forall>t. srv_list S t (source_dir L) = Inr lst"
    and contract: "\<forall>x \<in> set lst. parent (parse x) = parse (source_dir L)"
    and first: "full_download n L S w = Some (None, w1)"
  shows "\<exists>w2. full_download (Suc m) L S w1 = Some (None, w2)
           \<and> files w2 = files w1
           \<and> trace w2 = trace w1
               @ [Connect, FtpList (source_dir L), FtpList (source_dir L), Close]"
proof -
  from first obtain k where n: "n = Suc k" by (cases n) auto
  let ?retry = "full_download k L S"
  have keeps: "\<forall>v q v' p. ?retry v = Some (q, v') \<longrightarrow> is_file v p \<longrightarrow> is_file v' p"
    using full_download_keeps by blast
  let ?w0 = "w\<lparr>tick := Suc (tick w), trace := trace w @ [Connect]\<rparr>"
  from first conn obtain wb where
    cls: "sync_classes L S ?retry [''.md5'', ''.gz''] ?w0 = Some (None, wb)"
    and w1: "w1 = ftp_close wb"
    unfolding n by (auto simp: ftp_connect_def sup_extensions_def split: option.splits)
  from cls obtain wa where
    a: "sync_class L S ?retry ''.md5'' ?w0 = Some (None, wa)"
    and b: "sync_class L S ?retry ''.gz'' wa = Some (None, wb)"
    by (auto split: option.splits prod.splits)
  from lst have la: "srv_list S (tick ?w0) (source_dir L) = Inr lst"
    and lb: "srv_list S (tick wa) (source_dir L) = Inr lst"
    by simp_all
  have "diff_names L (source_dir L) lst (tl ''.md5'') wa = []"
    using keeps la contract _ a by (rule sync_class_complete) (simp add: sup_extensions_def)
  moreover have "\<forall>p. is_file wa p \<longrightarrow> is_file w1 p"
    using sync_class_keeps [OF keeps b] by (simp add: w1 ftp_close_def)
  ultimately have md5: "diff_names L (source_dir L) lst (tl ''.md5'') w1 = []"
    by (rule diff_names_empty_keeps)
  have "diff_names L (source_dir L) lst (tl ''.gz'') wb = []"
    using keeps lb contract _ b by (rule sync_class_complete) (simp add: sup_extensions_def)
  moreover have "\<forall>p. is_file wb p \<longrightarrow> is_file w1 p"
    by (simp add: w1 ftp_close_def)
  ultimately have gz: "diff_names L (source_dir L) lst (tl ''.gz'') w1 = []"
    by (rule diff_names_empty_keeps)
  let ?v0 = "w1\<lparr>tick := Suc (tick w1), trace := trace w1 @ [Connect]\<rparr>"
  let ?v1 = "?v0\<lparr>tick := Suc (tick ?v0), trace := trace ?v0 @ [FtpList (source_dir L)]\<rparr>"
  let ?v2 = "?v1\<lparr>tick := Suc (tick ?v1), trace := trace ?v1 @ [FtpList (source_dir L)]\<rparr>"
  have c: "ftp_connect S w1 = (None, ?v0)"
    using conn by (simp add: ftp_connect_def)
  have "diff_names L (source_dir L) lst (tl ''.md5'') ?v0 = []"
    using md5 by simp
  with lst have s1: "sync_class L S (full_download m L S) ''.md5'' ?v0 = Some (None, ?v1)"
    by (simp add: sync_class_nothing_missing)
  have "diff_names L (source_dir L) lst (tl ''.gz'') ?v1 = []"
    using gz by simp
  with lst have s2: "sync_class L S (full_download m L S) ''.gz'' ?v1 = Some (None, ?v2)"
    by (simp add: sync_class_nothing_missing)
  have "full_download (Suc m) L S w1 = Some (None, ftp_close ?v2)"
    using c s1 s2 by (simp add: sup_extensions_def)
  then show ?thesis
    by (simp add: ftp_close_def log_event_def)
qed


theorem sync_idempotent_witness:
  "(\<forall>t. srv_connect flaky_server t = None)
   \<and> (\<forall>t. srv_list flaky_server t (source_dir example_loader) = Inr example_listing)
   \<and> list_all (\<lambda>x. parent (parse x) = parse (source_dir example_loader)) example_listing
   \<and> full_download 2 example_loader flaky_server empty_mirror
       = Some (None, snd (the (full_download 2 example_loader flaky_server empty_mirror)))
   \<and> (\<exists>w2. full_download (Suc 0) example_loader flaky_server
               (snd (the (full_download 2 example_loader flaky_server empty_mirror)))
             = Some (None, w2)
          \<and> files w2 = files (snd (the (full_download 2 example_loader flaky_server empty_mirror)))
          \<and> trace w2 = trace (snd (the (full_download 2 example_loader flaky_server empty_mirror)))
               @ [Connect, FtpList (source_dir example_loader),
                  FtpList (source_dir example_loader), Close])"
proof -
  have conn: "\<forall>t. srv_connect flaky_server t = None"
    by (simp add: flaky_server_def)
  have lst: "\<forall>t. srv_list flaky_server t (source_dir example_loader) = Inr example_listing"
    by (simp add: flaky_server_def)
  have entries: "list_all (\<lambda>x. parent (parse x) = parse (source_dir example_loader))
      example_listing"
    by code_simp
  then have contract:
    "\<forall>x \<in> set example_listing. parent (parse x) = parse (source_dir example_loader)"
    by (simp only: list_all_iff)
  have first: "full_download 2 example_loader flaky_server empty_mirror
       = Some (None, snd (the (full_download 2 example_loader flaky_server empty_mirror)))"
    by code_simp
  from sync_idempotent [OF conn lst contract first, of 0] conn lst entries first
  show ?thesis by blast
qed



text \<open>
  C3. The mirror holds \<^verbatim>\<open>a.gz\<close> and \<^verbatim>\<open>a.md5\<close>, the server lists both and
  \<^verbatim>\<open>b.gz\<close>, \<^verbatim>\<open>b.md5\<close>. The pass retrieves the two \<^verbatim>\<open>b\<close> files only:
  \<^verbatim>\<open>a.md5\<close> is not in the diff, so it is neither removed nor retrieved and keeps
  its old content, although the server would deliver a different one.
\<close>

theorem existing_sidecar_not_refetched:
  "(case full_download 1 example_loader reliable_server partial_mirror of
      Some (None, w) \<Rightarrow>
        map_of (files w) (join mirror_dir (parse ''a.md5'')) = Some ''local a.md5''
        \<and> srv_get reliable_server (tick w) (join remote_dir (parse ''a.md5''))
            = (''remote a.md5'', None)
        \<and> filter (\<lambda>e. case e of FtpGet f \<Rightarrow> True | _ \<Rightarrow> False) (trace w)
            = [FtpGet (join remote_dir (parse ''b.md5'')),
               FtpGet (join remote_dir (parse ''b.gz''))]
        \<and> Unlink (join mirror_dir (parse ''a.md5'')) \<notin> set (trace w)
    | _ \<Rightarrow> False)"
  by code_simp

text \<open>
  C8. The retrieval of \<^verbatim>\<open>a.gz\<close> breaks off after four bytes. The pass that the
  handler starts finds \<^verbatim>\<open>a.gz\<close> in the local inventory, so the file is never
  retrieved again: the run returns normally with the four bytes in place, and the diff
  of the payload class is empty afterwards.
\<close>

theorem interrupted_download_kept_as_complete:
  "(case full_download 2 example_loader flaky_server empty_mirror of
      Some (None, w) \<Rightarrow>
        map_of (files w) (join mirror_dir (parse ''a.gz'')) = Some ''remo''
        \<and> srv_get flaky_server (tick w) (join remote_dir (parse ''a.gz''))
            = (''remote a.gz'', None)
        \<and> diff_names example_loader (source_dir example_loader) example_listing ''gz'' w = []
        \<and> LogWarning_Sleep EOFError \<in> set (trace w)
    | _ \<Rightarrow> False)"
  by code_simp

section \<open>The order of the classes\<close>











end
